theory Spec2Isabelle
  imports Main "HOL-Library.AList"
begin

section \<open>Data frames\<close>

text \<open>
  The script works on pandas data frames read from two all-numeric CSV files, both
  indexed by \<open>vehicle_id\<close>. A cell is a number or the missing value; numbers are
  modelled as unbounded integers (the rounding of float64 and the range of int64 are
  outside the model). A series is a list of labelled cells, a frame is a list of row
  labels together with its named columns, in column order.
\<close>

datatype cell = NaN | Num int

datatype error = KeyError "string list" | ValueError

type_synonym series = "(int \<times> cell) list"

record frame =
  index :: "int list"
  columns :: "(string \<times> cell list) list"

text \<open>A frame as pandas builds it: no column name twice, every column as long as the index.\<close>

definition wf_frame :: "frame \<Rightarrow> bool" where
  "wf_frame df \<longleftrightarrow>
     distinct (map fst (columns df)) \<and>
     list_all (\<lambda>kv. length (snd kv) = length (index df)) (columns df)"

subsection \<open>Printing a level\<close>

text \<open>
  \<open>get_dummies\<close> names a column \<open>'%s%s%s' % (prefix, '_', level)\<close>. A level of an
  integer column prints as its decimal digits; a numeric column holding a missing value
  is a float column, whose levels print with a trailing \<open>.0\<close>.
\<close>

definition digit :: "nat \<Rightarrow> char" where
  "digit d = ''0123456789'' ! d"

fun str_nat :: "nat \<Rightarrow> string" where
  "str_nat n = (if n < 10 then [digit n] else str_nat (n div 10) @ [digit (n mod 10)])"

declare str_nat.simps [simp del]

definition str_int :: "int \<Rightarrow> string" where
  "str_int i = (if i < 0 then ''-'' @ str_nat (nat (- i)) else str_nat (nat i))"

definition level_name :: "string \<Rightarrow> bool \<Rightarrow> int \<Rightarrow> string" where
  "level_name prefix is_float n =
     prefix @ ''_'' @ str_int n @ (if is_float then ''.0'' else '''')"

subsection \<open>The pandas operations that \<open>clean_data\<close> calls\<close>

text \<open>\<open>df[c]\<close>: the column as a series over the frame's index; \<open>KeyError\<close> without it.\<close>

definition getitem :: "frame \<Rightarrow> string \<Rightarrow> error + series" where
  "getitem df c =
     (case map_of (columns df) c of
        None \<Rightarrow> Inl (KeyError [c])
      | Some vs \<Rightarrow> Inr (zip (index df) vs))"

text \<open>The numbers of a series, missing values left out.\<close>

fun present :: "series \<Rightarrow> int list" where
  "present [] = []"
| "present ((l, NaN) # ser) = present ser"
| "present ((l, Num n) # ser) = n # present ser"

definition has_nan :: "series \<Rightarrow> bool" where
  "has_nan ser = list_ex (\<lambda>lc. snd lc = NaN) ser"

text \<open>
  \<open>pd.get_dummies(ser, prefix=p)\<close>: one 0/1 column per distinct value of the series,
  in increasing order of the values, over the index of the series. A missing value
  gets no column and a row of zeros.
\<close>

definition get_dummies :: "series \<Rightarrow> string \<Rightarrow> frame" where
  "get_dummies ser prefix =
     \<lparr>index = map fst ser,
      columns = map (\<lambda>n. (level_name prefix (has_nan ser) n,
                           map (\<lambda>lc. Num (if snd lc = Num n then 1 else 0)) ser))
                    (sort (remdups (present ser)))\<rparr>"

text \<open>\<open>df[c] = v\<close> for a scalar \<open>v\<close>: the constant column, replaced in place or appended.\<close>

definition setitem_scalar :: "frame \<Rightarrow> string \<Rightarrow> cell \<Rightarrow> frame" where
  "setitem_scalar df c v =
     df\<lparr>columns := AList.update c (replicate (length (index df)) v) (columns df)\<rparr>"

text \<open>\<open>df.groupby(level='vehicle_id').sum()\<close>: one row per distinct label, in increasing
  order, each column summed over the rows of that label.\<close>

definition group_sum :: "int \<Rightarrow> series \<Rightarrow> cell" where
  "group_sum k ser = Num (sum_list (present (filter (\<lambda>lc. fst lc = k) ser)))"

definition groupby_sum :: "frame \<Rightarrow> frame" where
  "groupby_sum df =
     (let keys = sort (remdups (index df))
      in \<lparr>index = keys,
          columns = map (\<lambda>(c, vs). (c, map (\<lambda>k. group_sum k (zip (index df) vs)) keys))
                        (columns df)\<rparr>)"

text \<open>
  \<open>df[c] = ser\<close> for a series. A frame without rows takes the index of the series
  (pandas' \<open>_ensure_valid_index\<close>), its old columns becoming all missing. Otherwise a
  series over the same index is stored as it is, and any other series is reindexed to the
  frame's index, labels it does not have giving missing values; reindexing a series whose
  own labels repeat raises \<open>ValueError\<close>.
\<close>

definition reindexed :: "series \<Rightarrow> int list \<Rightarrow> cell list" where
  "reindexed ser idx = map (\<lambda>l. case map_of ser l of None \<Rightarrow> NaN | Some v \<Rightarrow> v) idx"

definition setitem_series :: "frame \<Rightarrow> string \<Rightarrow> series \<Rightarrow> error + frame" where
  "setitem_series df c ser =
     (if index df = [] then
        Inr \<lparr>index = map fst ser,
             columns = AList.update c (map snd ser)
                         (map (\<lambda>(k, vs). (k, replicate (length ser) NaN)) (columns df))\<rparr>
      else if map fst ser = index df then
        Inr (df\<lparr>columns := AList.update c (map snd ser) (columns df)\<rparr>)
      else if \<not> distinct (map fst ser) then Inl ValueError
      else
        Inr (df\<lparr>columns := AList.update c (reindexed ser (index df)) (columns df)\<rparr>))"

text \<open>\<open>df[cs]\<close> for a list of names: the sub-frame of these columns; \<open>KeyError\<close> with
  the names that are not columns.\<close>

definition getitem_list :: "frame \<Rightarrow> string list \<Rightarrow> error + frame" where
  "getitem_list df cs =
     (let missing = filter (\<lambda>c. map_of (columns df) c = None) cs
      in if missing \<noteq> [] then Inl (KeyError missing)
         else Inr \<lparr>index = index df,
                   columns = map (\<lambda>c. (c, case map_of (columns df) c of
                                              None \<Rightarrow> [] | Some vs \<Rightarrow> vs)) cs\<rparr>)"

text \<open>
  \<open>df[cs] = other\<close> for a frame: \<open>ValueError\<close> unless \<open>other\<close> has as many columns
  as \<open>cs\<close> has names; then \<open>df[k1] = other[k2]\<close> pair by pair, in order. The frame is
  changed in place, so an error leaves the columns already set.
\<close>

fun setitem_each :: "frame \<Rightarrow> (string \<times> series) list \<Rightarrow> error option \<times> frame" where
  "setitem_each df [] = (None, df)"
| "setitem_each df ((k, ser) # rest) =
     (case setitem_series df k ser of
        Inl e \<Rightarrow> (Some e, df)
      | Inr df' \<Rightarrow> setitem_each df' rest)"

definition setitem_frame :: "frame \<Rightarrow> string list \<Rightarrow> frame \<Rightarrow> error option \<times> frame" where
  "setitem_frame df cs other =
     (if length (columns other) \<noteq> length cs then (Some ValueError, df)
      else setitem_each df
             (zip cs (map (\<lambda>(k, vs). zip (index other) vs) (columns other))))"

text \<open>\<open>df.fillna(value=v, inplace=True)\<close>: every missing cell of every column becomes \<open>v\<close>.\<close>

definition fill_cell :: "cell \<Rightarrow> cell \<Rightarrow> cell" where
  "fill_cell v c = (case c of NaN \<Rightarrow> v | Num n \<Rightarrow> Num n)"

definition fillna :: "frame \<Rightarrow> cell \<Rightarrow> frame" where
  "fillna df v = df\<lparr>columns := map (\<lambda>(c, vs). (c, map (fill_cell v) vs)) (columns df)\<rparr>"

text \<open>\<open>a - b\<close> for two columns of one frame (so over one index): cell by cell, a missing
  operand giving a missing difference.\<close>

fun sub_cell :: "cell \<Rightarrow> cell \<Rightarrow> cell" where
  "sub_cell (Num a) (Num b) = Num (a - b)"
| "sub_cell _ _ = NaN"

definition sub_series :: "series \<Rightarrow> series \<Rightarrow> series" where
  "sub_series a b = map (\<lambda>(x, y). (fst x, sub_cell (snd x) (snd y))) (zip a b)"

section \<open>The feature builder\<close>

text \<open>
  \<open>clean_data\<close> receives two frame objects and changes the vehicle frame in place, so
  the model runs on a store of frames: both arguments are references, the result is the
  reference returned (or the exception raised) together with the store left behind.
\<close>

type_synonym ref = nat

type_synonym store = "ref \<Rightarrow> frame"

definition res_types :: "string list" where
  "res_types = [''res_type_1'', ''res_type_2'', ''res_type_3'']"

definition clean_data :: "ref \<Rightarrow> ref \<Rightarrow> store \<Rightarrow> (error + ref) \<times> store" where
  "clean_data reservation_df vehicle_df s =
     (case getitem (s reservation_df) ''reservation_type'' of
        Inl e \<Rightarrow> (Inl e, s)
      | Inr rtype \<Rightarrow>
          let res = get_dummies rtype ''res_type'';
              res = setitem_scalar res ''reservation'' (Num 1);
              res_by_vehicle = groupby_sum res
          in (case getitem res_by_vehicle ''reservation'' of
                Inl e \<Rightarrow> (Inl e, s)
              | Inr reservation \<Rightarrow>
                  (case setitem_series (s vehicle_df) ''total_reservations'' reservation of
                     Inl e \<Rightarrow> (Inl e, s)
                   | Inr v1 \<Rightarrow>
                       let s1 = s(vehicle_df := v1)
                       in (case getitem_list res_by_vehicle res_types of
                             Inl e \<Rightarrow> (Inl e, s1)
                           | Inr by_type \<Rightarrow>
                               (case setitem_frame v1 res_types by_type of
                                  (Some e, v2) \<Rightarrow> (Inl e, s1(vehicle_df := v2))
                                | (None, v2) \<Rightarrow>
                                    let v3 = fillna v2 (Num 0);
                                        s3 = s1(vehicle_df := v3)
                                    in (case getitem v3 ''actual_price'' of
                                          Inl e \<Rightarrow> (Inl e, s3)
                                        | Inr actual \<Rightarrow>
                                            (case getitem v3 ''recommended_price'' of
                                               Inl e \<Rightarrow> (Inl e, s3)
                                             | Inr recommended \<Rightarrow>
                                                 (case setitem_series v3 ''price_difference''
                                                         (sub_series actual recommended) of
                                                    Inl e \<Rightarrow> (Inl e, s3)
                                                  | Inr v4 \<Rightarrow>
                                                      (Inr vehicle_df,
                                                       s3(vehicle_df := v4))))))))))"

section \<open>What the output is compared with\<close>

text \<open>
  The reservation records are the labelled cells of the \<open>reservation_type\<close> column:
  vehicle identifier and reservation type. \<open>n_reserved rs l\<close> is the number of records
  of vehicle \<open>l\<close>, \<open>n_of_type rs j l\<close> the number of its records of type \<open>j\<close>, and
  \<open>n_other rs l\<close> the number of its records of a type outside the three fixed ones.
\<close>

definition n_reserved :: "series \<Rightarrow> int \<Rightarrow> int" where
  "n_reserved rs l = int (length (filter (\<lambda>lc. fst lc = l) rs))"

definition n_of_type :: "series \<Rightarrow> int \<Rightarrow> int \<Rightarrow> int" where
  "n_of_type rs j l = int (length (filter (\<lambda>lc. lc = (l, Num j)) rs))"


text \<open>The first three statements of \<open>clean_data\<close> as one function of the reservation
  records, and the labels of its rows.\<close>

definition by_vehicle :: "series \<Rightarrow> frame" where
  "by_vehicle rs = groupby_sum (setitem_scalar (get_dummies rs ''res_type'') ''reservation'' (Num 1))"

definition keys_of :: "series \<Rightarrow> int list" where
  "keys_of rs = sort (remdups (map fst rs))"

text \<open>Every one of the three fixed types occurs among the records, in an integer column
  (one without a missing value).\<close>

definition every_type :: "series \<Rightarrow> bool" where
  "every_type rs \<longleftrightarrow> \<not> has_nan rs \<and> 1 \<in> set (present rs) \<and> 2 \<in> set (present rs) \<and> 3 \<in> set (present rs)"

text \<open>
  The vehicle table as lines 25 to 30 leave it when every type occurs, in closed form:
  the rows of the vehicle table, or for a vehicle table without rows one row per vehicle
  of the reservation records; the four count columns; every old cell filled.
  Lemma \<open>clean_data_every_type\<close> proves that this is what \<open>clean_data\<close> computes.
\<close>

definition with_counts :: "frame \<Rightarrow> series \<Rightarrow> frame" where
  "with_counts V rs =
     (let idx = (if index V = [] then keys_of rs else index V);
          old = (if index V = []
                 then map (\<lambda>(c, vs). (c, replicate (length (keys_of rs)) (Num 0))) (columns V)
                 else map (\<lambda>(c, vs). (c, map (fill_cell (Num 0)) vs)) (columns V))
      in \<lparr>index = idx,
          columns =
            AList.update ''res_type_3'' (map (\<lambda>l. Num (n_of_type rs 3 l)) idx)
              (AList.update ''res_type_2'' (map (\<lambda>l. Num (n_of_type rs 2 l)) idx)
                (AList.update ''res_type_1'' (map (\<lambda>l. Num (n_of_type rs 1 l)) idx)
                  (AList.update ''total_reservations'' (map (\<lambda>l. Num (n_reserved rs l)) idx)
                    old)))\<rparr>)"

text \<open>Lines 32 to 35 of \<open>clean_data\<close>, on the vehicle table that line 30 leaves.\<close>

definition finish :: "ref \<Rightarrow> store \<Rightarrow> frame \<Rightarrow> (error + ref) \<times> store" where
  "finish v s v3 =
     (case getitem v3 ''actual_price'' of
        Inl e \<Rightarrow> (Inl e, s(v := v3))
      | Inr actual \<Rightarrow>
          (case getitem v3 ''recommended_price'' of
             Inl e \<Rightarrow> (Inl e, s(v := v3))
           | Inr recommended \<Rightarrow>
               (case setitem_series v3 ''price_difference'' (sub_series actual recommended) of
                  Inl e \<Rightarrow> (Inl e, s(v := v3))
                | Inr v4 \<Rightarrow> (Inr v, s(v := v4)))))"

text \<open>\<open>df[c].iloc[i]\<close>, if the frame has the column and the column has the row.\<close>

definition cell_at :: "frame \<Rightarrow> string \<Rightarrow> nat \<Rightarrow> cell option" where
  "cell_at df c i =
     (case getitem df c of
        Inl e \<Rightarrow> None
      | Inr ser \<Rightarrow> if i < length ser then Some (snd (ser ! i)) else None)"

text \<open>The number a cell holds once \<open>fillna(0)\<close> has run.\<close>

definition zero_filled :: "cell \<Rightarrow> int" where
  "zero_filled c = (case c of NaN \<Rightarrow> 0 | Num n \<Rightarrow> n)"


section \<open>The example tables\<close>

text \<open>
  A store holding a reservation table at reference 0 and a vehicle table at reference 1.
  The example has two vehicles, 1 and 2, priced 100/80 and 50/60, and three reservations
  of vehicle 1, of the first, first and second type. The second reservation table adds a
  reservation of the third type for a vehicle 3 that is not in the vehicle table.
\<close>

definition store_of :: "frame \<Rightarrow> frame \<Rightarrow> store" where
  "store_of r v = (\<lambda>_. \<lparr>index = [], columns = []\<rparr>)(0 := r, 1 := v)"

definition example_vehicles :: frame where
  "example_vehicles =
     \<lparr>index = [1, 2],
      columns = [(''actual_price'', [Num 100, Num 50]),
                 (''recommended_price'', [Num 80, Num 60])]\<rparr>"

definition example_reservations :: frame where
  "example_reservations =
     \<lparr>index = [1, 1, 1], columns = [(''reservation_type'', [Num 1, Num 1, Num 2])]\<rparr>"

definition example_reservations_all :: frame where
  "example_reservations_all =
     \<lparr>index = [1, 1, 1, 3],
      columns = [(''reservation_type'', [Num 1, Num 1, Num 2, Num 3])]\<rparr>"

text \<open>A vehicle table with the two price columns and no rows.\<close>

definition no_vehicles :: frame where
  "no_vehicles = \<lparr>index = [], columns = [(''actual_price'', []), (''recommended_price'', [])]\<rparr>"


definition example_vehicles_missing :: frame where
  "example_vehicles_missing =
     \<lparr>index = [1, 2],
      columns = [(''actual_price'', [NaN, Num 50]),
                 (''recommended_price'', [Num 80, Num 60]),
                 (''num_images'', [Num 4, NaN])]\<rparr>"



definition example_reservations_other :: frame where
  "example_reservations_other =
     \<lparr>index = [7, 1, 1, 1, 7, 7],
      columns = [(''reservation_type'', [Num 3, Num 1, Num 1, Num 2, Num 2, Num 1])]\<rparr>"


section \<open>Column names and group sums\<close>

lemma str_nat_nonempty: "str_nat n \<noteq> []"
  by (subst str_nat.simps) simp

lemma str_nat_single: "str_nat n = [c] \<longleftrightarrow> n < 10 \<and> digit n = c"
  by (subst str_nat.simps) (simp add: str_nat_nonempty)

lemma digit_eq:
  assumes "n < 10"
  shows "digit n = CHR ''1'' \<longleftrightarrow> n = 1" "digit n = CHR ''2'' \<longleftrightarrow> n = 2"
    "digit n = CHR ''3'' \<longleftrightarrow> n = 3"
proof -
  from assms have "n \<in> {0, 1, 2, 3, 4, 5, 6, 7, 8, 9}" by auto
  then show "digit n = CHR ''1'' \<longleftrightarrow> n = 1" "digit n = CHR ''2'' \<longleftrightarrow> n = 2"
    "digit n = CHR ''3'' \<longleftrightarrow> n = 3"
    unfolding digit_def by auto
qed

lemma str_int_digit:
  "str_int n = ''1'' \<longleftrightarrow> n = 1" "str_int n = ''2'' \<longleftrightarrow> n = 2" "str_int n = ''3'' \<longleftrightarrow> n = 3"
  unfolding str_int_def by (auto simp: str_nat_single digit_eq)

lemma str_int_nonempty: "str_int n \<noteq> []"
  unfolding str_int_def by (simp add: str_nat_nonempty)

lemma level_name_res_type:
  "level_name ''res_type'' fl n = ''res_type_1'' \<longleftrightarrow> \<not> fl \<and> n = 1"
  "level_name ''res_type'' fl n = ''res_type_2'' \<longleftrightarrow> \<not> fl \<and> n = 2"
  "level_name ''res_type'' fl n = ''res_type_3'' \<longleftrightarrow> \<not> fl \<and> n = 3"
  "level_name ''res_type'' fl n \<noteq> ''reservation''"
  unfolding level_name_def
  by (auto simp: str_int_digit append_eq_Cons_conv str_int_nonempty)

lemma map_of_named:
  assumes "\<And>n. name n = c \<longleftrightarrow> P \<and> n = j"
  shows "map_of (map (\<lambda>n. (name n, g n)) xs) c = (if P \<and> j \<in> set xs then Some (g j) else None)"
proof (induction xs)
  case Nil
  show ?case by simp
next
  case (Cons a xs)
  show ?case
  proof (cases "name a = c")
    case True
    with assms have "P" "a = j" by auto
    with True show ?thesis by simp
  next
    case False
    with assms have "\<not> (P \<and> a = j)" by auto
    with False Cons show ?thesis by auto
  qed
qed

lemma present_filter_const:
  "present (filter (\<lambda>lc. fst lc = k) (zip (map fst ser) (map (\<lambda>lc. Num (h lc)) ser)))
     = map h (filter (\<lambda>lc. fst lc = k) ser)"
  by (induction ser) auto

lemma group_sum_dummy:
  "group_sum k (zip (map fst ser) (map (\<lambda>lc. Num (if snd lc = Num n then 1 else 0)) ser))
     = Num (n_of_type ser n k)"
proof -
  have "sum_list (map (\<lambda>lc. if snd lc = Num n then 1 else 0) (filter (\<lambda>lc. fst lc = k) ser))
          = int (length (filter (\<lambda>lc. lc = (k, Num n)) ser))"
    by (induction ser) auto
  then show ?thesis
    unfolding group_sum_def n_of_type_def by (simp add: present_filter_const)
qed

lemma group_sum_ones:
  "group_sum k (zip (map fst ser) (replicate (length ser) (Num 1))) = Num (n_reserved ser k)"
proof -
  have "replicate (length ser) (Num 1) = map (\<lambda>lc. Num ((\<lambda>_. 1) lc)) ser"
    by (simp add: map_replicate_const)
  moreover have "sum_list (map (\<lambda>_. 1) (filter (\<lambda>lc. fst lc = k) ser))
          = int (length (filter (\<lambda>lc. fst lc = k) ser))"
    by (induction ser) auto
  ultimately show ?thesis
    unfolding group_sum_def n_reserved_def by (simp only: present_filter_const)
qed

lemma index_by_vehicle: "index (by_vehicle rs) = keys_of rs"
  by (simp add: by_vehicle_def groupby_sum_def setitem_scalar_def get_dummies_def keys_of_def Let_def)

lemma distinct_keys_of: "distinct (keys_of rs)"
  by (simp add: keys_of_def)

lemma set_keys_of: "set (keys_of rs) = fst ` set rs"
  by (simp add: keys_of_def)

lemma by_vehicle_reservation:
  "map_of (columns (by_vehicle rs)) ''reservation'' = Some (map (\<lambda>k. Num (n_reserved rs k)) (keys_of rs))"
  by (simp add: by_vehicle_def groupby_sum_def setitem_scalar_def get_dummies_def Let_def
      map_of_map update_conv' group_sum_ones keys_of_def)

lemma by_vehicle_res_type:
  "map_of (columns (by_vehicle rs)) ''res_type_1'' =
     (if \<not> has_nan rs \<and> 1 \<in> set (present rs)
      then Some (map (\<lambda>k. Num (n_of_type rs 1 k)) (keys_of rs)) else None)"
  "map_of (columns (by_vehicle rs)) ''res_type_2'' =
     (if \<not> has_nan rs \<and> 2 \<in> set (present rs)
      then Some (map (\<lambda>k. Num (n_of_type rs 2 k)) (keys_of rs)) else None)"
  "map_of (columns (by_vehicle rs)) ''res_type_3'' =
     (if \<not> has_nan rs \<and> 3 \<in> set (present rs)
      then Some (map (\<lambda>k. Num (n_of_type rs 3 k)) (keys_of rs)) else None)"
  by (simp_all add: by_vehicle_def groupby_sum_def setitem_scalar_def get_dummies_def Let_def
      map_of_map update_conv' group_sum_dummy keys_of_def
      map_of_named [where name = "level_name ''res_type'' (has_nan rs)", OF level_name_res_type(1)]
      map_of_named [where name = "level_name ''res_type'' (has_nan rs)", OF level_name_res_type(2)]
      map_of_named [where name = "level_name ''res_type'' (has_nan rs)", OF level_name_res_type(3)])

section \<open>Assigning and looking up columns\<close>

lemma zip_map_same: "zip xs (map f xs) = map (\<lambda>x. (x, f x)) xs"
  by (induction xs) auto

lemma map_of_graph: "map_of (map (\<lambda>x. (x, f x)) xs) l = (if l \<in> set xs then Some (f l) else None)"
  by (induction xs) auto

lemma reindexed_graph:
  "reindexed (map (\<lambda>x. (x, f x)) keys) idx = map (\<lambda>l. if l \<in> set keys then f l else NaN) idx"
  by (simp add: reindexed_def map_of_graph)

lemma reindexed_same:
  "distinct (map fst ser) \<Longrightarrow> reindexed ser (map fst ser) = map snd ser"
  by (auto simp: reindexed_def)

lemma setitem_series_distinct:
  assumes "distinct (map fst ser)"
  shows "setitem_series df c ser =
     Inr (if index df = [] then
            \<lparr>index = map fst ser,
             columns = AList.update c (reindexed ser (map fst ser))
                         (map (\<lambda>(k, vs). (k, replicate (length ser) NaN)) (columns df))\<rparr>
          else df\<lparr>columns := AList.update c (reindexed ser (index df)) (columns df)\<rparr>)"
proof -
  have "map fst ser = index df \<Longrightarrow> reindexed ser (index df) = map snd ser"
    using reindexed_same [OF assms] by simp
  with assms show ?thesis
    by (simp add: setitem_series_def reindexed_same)
qed

lemma getitem_by_vehicle_reservation:
  "getitem (by_vehicle rs) ''reservation'' =
     Inr (map (\<lambda>k. (k, Num (n_reserved rs k))) (keys_of rs))"
  by (simp add: getitem_def by_vehicle_reservation index_by_vehicle zip_map_same)

lemma getitem_list_by_vehicle:
  "getitem_list (by_vehicle rs) res_types =
     (if every_type rs then
        Inr \<lparr>index = keys_of rs,
             columns = [(''res_type_1'', map (\<lambda>k. Num (n_of_type rs 1 k)) (keys_of rs)),
                        (''res_type_2'', map (\<lambda>k. Num (n_of_type rs 2 k)) (keys_of rs)),
                        (''res_type_3'', map (\<lambda>k. Num (n_of_type rs 3 k)) (keys_of rs))]\<rparr>
      else Inl (KeyError (filter (\<lambda>c. map_of (columns (by_vehicle rs)) c = None) res_types)))"
  by (auto simp: getitem_list_def res_types_def by_vehicle_res_type index_by_vehicle every_type_def Let_def)


section \<open>The closed form of \<open>clean_data\<close>\<close>

lemma map_update:
  "map (\<lambda>(c, vs). (c, g vs)) (AList.update k v al) = AList.update k (g v) (map (\<lambda>(c, vs). (c, g vs)) al)"
  by (induction al) auto

lemma map_map_cols:
  "(\<lambda>(c, vs). (c, g vs)) \<circ> (\<lambda>(c, vs). (c, h vs)) = (\<lambda>(c, vs). (c, g (h vs)))"
  by (auto simp: fun_eq_iff)

lemma every_type_keys: "every_type rs \<Longrightarrow> keys_of rs \<noteq> []"
proof -
  assume "every_type rs"
  then have "present rs \<noteq> []" by (auto simp: every_type_def)
  then have "rs \<noteq> []" by auto
  then have "set (keys_of rs) \<noteq> {}" by (simp add: set_keys_of)
  then show ?thesis by auto
qed

lemma n_reserved_0: "l \<notin> fst ` set rs \<Longrightarrow> n_reserved rs l = 0"
  by (auto simp: n_reserved_def filter_empty_conv)

lemma n_of_type_0: "l \<notin> fst ` set rs \<Longrightarrow> n_of_type rs j l = 0"
  by (force simp: n_of_type_def filter_empty_conv)

lemma fill_counts:
  assumes "\<And>l. l \<notin> set keys \<Longrightarrow> f l = 0"
  shows "map (fill_cell (Num 0)) (map (\<lambda>l. if l \<in> set keys then Num (f l) else NaN) idx)
           = map (\<lambda>l. Num (f l)) idx"
  by (auto simp: fill_cell_def assms)

lemma fill_replicate: "map (fill_cell (Num 0)) (replicate n NaN) = replicate n (Num 0)"
  by (simp add: fill_cell_def)

lemma clean_data_every_type:
  assumes "getitem (s r) ''reservation_type'' = Inr rs" and "every_type rs"
  shows "clean_data r v s = finish v s (with_counts (s v) rs)"
proof -
  define keys where "keys = keys_of rs"
  define idx where "idx = (if index (s v) = [] then keys else index (s v))"
  define col where "col f = map (\<lambda>l. if l \<in> set keys then Num (f l) else NaN) idx" for f
  define tot where "tot = map (\<lambda>k. (k, Num (n_reserved rs k))) keys"
  define bt where "bt =
     \<lparr>index = keys,
      columns = [(''res_type_1'', map (\<lambda>k. Num (n_of_type rs 1 k)) keys),
                 (''res_type_2'', map (\<lambda>k. Num (n_of_type rs 2 k)) keys),
                 (''res_type_3'', map (\<lambda>k. Num (n_of_type rs 3 k)) keys)]\<rparr>"
  define old where "old = (if index (s v) = []
      then map (\<lambda>(c, vs). (c, replicate (length keys) NaN)) (columns (s v)) else columns (s v))"
  define v1 where "v1 =
     \<lparr>index = idx, columns = AList.update ''total_reservations'' (col (n_reserved rs)) old\<rparr>"
  define v2 where "v2 =
     \<lparr>index = idx,
      columns = AList.update ''res_type_3'' (col (n_of_type rs 3))
                 (AList.update ''res_type_2'' (col (n_of_type rs 2))
                   (AList.update ''res_type_1'' (col (n_of_type rs 1))
                     (AList.update ''total_reservations'' (col (n_reserved rs)) old)))\<rparr>"
  have k: "keys \<noteq> []" using assms(2) unfolding keys_def by (rule every_type_keys)
  then have i: "idx \<noteq> []" by (simp add: idx_def)
  have d: "distinct (map fst (map (\<lambda>k. (k, f k)) keys))" for f :: "int \<Rightarrow> cell"
    by (simp add: comp_def distinct_keys_of keys_def)
  have g0: "getitem (by_vehicle rs) ''reservation'' = Inr tot"
    by (simp add: getitem_by_vehicle_reservation tot_def keys_def)
  have s1: "setitem_series (s v) ''total_reservations'' tot = Inr v1"
    unfolding tot_def
    by (simp add: setitem_series_distinct [OF d] reindexed_graph v1_def idx_def col_def old_def
        comp_def del: AList.update.simps)
  have g1: "getitem_list (by_vehicle rs) res_types = Inr bt"
    using assms(2) by (simp add: getitem_list_by_vehicle bt_def keys_def)
  have step: "setitem_series \<lparr>index = idx, columns = al\<rparr> c (map (\<lambda>k. (k, Num (f k))) keys)
      = Inr \<lparr>index = idx, columns = AList.update c (col f) al\<rparr>" for al c f
    using i by (simp add: setitem_series_distinct [OF d] reindexed_graph col_def
        del: AList.update.simps)
  have s2: "setitem_frame v1 res_types bt = (None, v2)"
    by (simp add: setitem_frame_def res_types_def bt_def v1_def v2_def zip_map_same step
        del: AList.update.simps)
  have z: "l \<notin> set keys \<Longrightarrow> n_reserved rs l = 0" "l \<notin> set keys \<Longrightarrow> n_of_type rs j l = 0" for l j
    by (simp_all add: keys_def set_keys_of n_reserved_0 n_of_type_0)
  have c: "map (fill_cell (Num 0)) (col (n_reserved rs)) = map (\<lambda>l. Num (n_reserved rs l)) idx"
    "map (fill_cell (Num 0)) (col (n_of_type rs j)) = map (\<lambda>l. Num (n_of_type rs j l)) idx" for j
    unfolding col_def by (rule fill_counts, simp add: z)+
  have f: "fillna v2 (Num 0) = with_counts (s v) rs"
    by (simp add: fillna_def v2_def with_counts_def map_update c Let_def idx_def keys_def
        old_def fill_cell_def map_map_cols del: AList.update.simps)
  show ?thesis
    by (simp add: clean_data_def Let_def by_vehicle_def [symmetric] assms(1) g0 s1 g1 s2 f
        finish_def split: sum.splits)
qed

lemma in_present: "j \<in> set (present rs) \<longleftrightarrow> Num j \<in> snd ` set rs"
  by (induction rs rule: present.induct) auto

lemma has_nan_iff: "has_nan rs \<longleftrightarrow> NaN \<in> snd ` set rs"
  by (force simp: has_nan_def list_ex_iff)

lemma clean_data_no_column:
  "getitem (s r) ''reservation_type'' = Inl e \<Longrightarrow> clean_data r v s = (Inl e, s)"
  by (simp add: clean_data_def)

lemma clean_data_missing_type:
  assumes "getitem (s r) ''reservation_type'' = Inr rs" and "\<not> every_type rs"
  shows "\<exists>v1. clean_data r v s =
           (Inl (KeyError (filter (\<lambda>c. map_of (columns (by_vehicle rs)) c = None) res_types)),
            s(v := v1))"
proof -
  have d: "distinct (map fst (map (\<lambda>k. (k, Num (n_reserved rs k))) (keys_of rs)))"
    by (simp add: comp_def distinct_keys_of)
  obtain v1 where "setitem_series (s v) ''total_reservations''
      (map (\<lambda>k. (k, Num (n_reserved rs k))) (keys_of rs)) = Inr v1"
    by (simp add: setitem_series_distinct [OF d])
  with assms(2) have "clean_data r v s =
      (Inl (KeyError (filter (\<lambda>c. map_of (columns (by_vehicle rs)) c = None) res_types)),
       s(v := v1))"
    by (simp add: clean_data_def Let_def by_vehicle_def [symmetric] assms(1)
        getitem_by_vehicle_reservation getitem_list_by_vehicle)
  then show ?thesis by blast
qed

lemma clean_data_InrD:
  assumes "clean_data r v s = (Inr x, s')"
  shows "\<exists>rs. getitem (s r) ''reservation_type'' = Inr rs \<and> every_type rs \<and>
              finish v s (with_counts (s v) rs) = (Inr x, s')"
proof (cases "getitem (s r) ''reservation_type''")
  case (Inl e)
  with assms show ?thesis by (simp add: clean_data_no_column)
next
  case (Inr rs)
  show ?thesis
  proof (cases "every_type rs")
    case True
    with Inr assms show ?thesis by (simp add: clean_data_every_type)
  next
    case False
    from clean_data_missing_type [of s r rs v] Inr False assms show ?thesis by auto
  qed
qed

lemma index_with_counts:
  "index (with_counts V rs) = (if index V = [] then keys_of rs else index V)"
  by (simp add: with_counts_def Let_def)

lemma with_counts_total:
  "map_of (columns (with_counts V rs)) ''total_reservations'' =
     Some (map (\<lambda>l. Num (n_reserved rs l)) (index (with_counts V rs)))"
  by (simp add: with_counts_def Let_def update_conv')

lemma with_counts_type:
  "map_of (columns (with_counts V rs)) ''res_type_1'' =
     Some (map (\<lambda>l. Num (n_of_type rs 1 l)) (index (with_counts V rs)))"
  "map_of (columns (with_counts V rs)) ''res_type_2'' =
     Some (map (\<lambda>l. Num (n_of_type rs 2 l)) (index (with_counts V rs)))"
  "map_of (columns (with_counts V rs)) ''res_type_3'' =
     Some (map (\<lambda>l. Num (n_of_type rs 3 l)) (index (with_counts V rs)))"
  by (simp_all add: with_counts_def Let_def update_conv')

lemma with_counts_old:
  assumes "c \<notin> {''total_reservations'', ''res_type_1'', ''res_type_2'', ''res_type_3''}"
  shows "map_of (columns (with_counts V rs)) c =
     (if index V = []
      then map_option (\<lambda>vs. replicate (length (keys_of rs)) (Num 0)) (map_of (columns V) c)
      else map_option (map (fill_cell (Num 0))) (map_of (columns V) c))"
  using assms by (simp add: with_counts_def Let_def update_conv' map_of_map)

lemma dom_with_counts:
  "fst ` set (columns (with_counts V rs)) =
     fst ` set (columns V) \<union> {''total_reservations'', ''res_type_1'', ''res_type_2'', ''res_type_3''}"
  by (auto simp: with_counts_def Let_def dom_update image_image case_prod_unfold)

lemma setitem_series_nonempty:
  assumes "setitem_series df c ser = Inr df'" and "index df \<noteq> []"
  shows "\<exists>vs. df' = df\<lparr>columns := AList.update c vs (columns df)\<rparr>"
  using assms by (auto simp: setitem_series_def split: if_splits)

lemma finish_InrD:
  assumes "finish v s W = (Inr x, s')" and "index W \<noteq> []"
  shows "\<exists>a b pd. x = v \<and> map_of (columns W) ''actual_price'' = Some a \<and>
           map_of (columns W) ''recommended_price'' = Some b \<and>
           setitem_series W ''price_difference''
              (sub_series (zip (index W) a) (zip (index W) b))
             = Inr (W\<lparr>columns := AList.update ''price_difference'' pd (columns W)\<rparr>) \<and>
           s' = s(v := W\<lparr>columns := AList.update ''price_difference'' pd (columns W)\<rparr>)"
  using assms
  by (auto simp: finish_def getitem_def split: sum.splits option.splits
      dest!: setitem_series_nonempty)

section \<open>What a call that returns leaves behind\<close>

lemma clean_data_success:
  assumes "clean_data r v s = (Inr x, s')"
  obtains rs a b pd where
    "getitem (s r) ''reservation_type'' = Inr rs" and "every_type rs" and "x = v" and
    "index (with_counts (s v) rs) \<noteq> []" and
    "map_of (columns (with_counts (s v) rs)) ''actual_price'' = Some a" and
    "map_of (columns (with_counts (s v) rs)) ''recommended_price'' = Some b" and
    "setitem_series (with_counts (s v) rs) ''price_difference''
        (sub_series (zip (index (with_counts (s v) rs)) a) (zip (index (with_counts (s v) rs)) b))
       = Inr ((with_counts (s v) rs)
               \<lparr>columns := AList.update ''price_difference'' pd (columns (with_counts (s v) rs))\<rparr>)" and
    "s' = s(v := (with_counts (s v) rs)
               \<lparr>columns := AList.update ''price_difference'' pd (columns (with_counts (s v) rs))\<rparr>)"
proof -
  from clean_data_InrD [OF assms] obtain rs where
    rs: "getitem (s r) ''reservation_type'' = Inr rs" "every_type rs"
      "finish v s (with_counts (s v) rs) = (Inr x, s')"
    by blast
  have i: "index (with_counts (s v) rs) \<noteq> []"
    using every_type_keys [OF rs(2)] by (simp add: index_with_counts)
  from finish_InrD [OF rs(3) i] rs(1,2) i that show thesis by blast
qed


lemma getitem_result:
  assumes "map_of (columns W) c = Some (map f (index W))" and "c \<noteq> c'"
  shows "getitem (W\<lparr>columns := AList.update c' pd (columns W)\<rparr>) c
           = Inr (map (\<lambda>l. (l, f l)) (index W))"
  using assms by (simp add: getitem_def update_conv' zip_map_same)

lemma result_columns:
  assumes "clean_data r v s = (Inr x, s')" and "getitem (s r) ''reservation_type'' = Inr rs"
  shows "index (s' v) = (if index (s v) = [] then keys_of rs else index (s v))"
    and "getitem (s' v) ''total_reservations''
           = Inr (map (\<lambda>l. (l, Num (n_reserved rs l))) (index (s' v)))"
    and "getitem (s' v) ''res_type_1''
           = Inr (map (\<lambda>l. (l, Num (n_of_type rs 1 l))) (index (s' v)))"
    and "getitem (s' v) ''res_type_2''
           = Inr (map (\<lambda>l. (l, Num (n_of_type rs 2 l))) (index (s' v)))"
    and "getitem (s' v) ''res_type_3''
           = Inr (map (\<lambda>l. (l, Num (n_of_type rs 3 l))) (index (s' v)))"
    and "fst ` set (columns (s' v))
           = fst ` set (columns (s v)) \<union>
             {''total_reservations'', ''res_type_1'', ''res_type_2'', ''res_type_3'',
              ''price_difference''}"
proof -
  define W where "W = with_counts (s v) rs"
  from assms(1) obtain rs' pd where
    "getitem (s r) ''reservation_type'' = Inr rs'" and
    "s' = s(v := (with_counts (s v) rs')
               \<lparr>columns := AList.update ''price_difference'' pd (columns (with_counts (s v) rs'))\<rparr>)"
    by (rule clean_data_success)
  with assms(2) have out: "s' v = W\<lparr>columns := AList.update ''price_difference'' pd (columns W)\<rparr>"
    by (simp add: W_def)
  show "index (s' v) = (if index (s v) = [] then keys_of rs else index (s v))"
    by (simp add: out W_def index_with_counts)
  show "getitem (s' v) ''total_reservations''
       = Inr (map (\<lambda>l. (l, Num (n_reserved rs l))) (index (s' v)))"
    by (simp add: out W_def getitem_result [OF with_counts_total])
  show "getitem (s' v) ''res_type_1''
       = Inr (map (\<lambda>l. (l, Num (n_of_type rs 1 l))) (index (s' v)))"
    by (simp add: out W_def getitem_result [OF with_counts_type(1)])
  show "getitem (s' v) ''res_type_2''
       = Inr (map (\<lambda>l. (l, Num (n_of_type rs 2 l))) (index (s' v)))"
    by (simp add: out W_def getitem_result [OF with_counts_type(2)])
  show "getitem (s' v) ''res_type_3''
       = Inr (map (\<lambda>l. (l, Num (n_of_type rs 3 l))) (index (s' v)))"
    by (simp add: out W_def getitem_result [OF with_counts_type(3)])
  show "fst ` set (columns (s' v))
       = fst ` set (columns (s v)) \<union>
         {''total_reservations'', ''res_type_1'', ''res_type_2'', ''res_type_3'',
          ''price_difference''}"
    unfolding out W_def by (simp add: dom_update dom_with_counts)
qed

lemma sub_series_same_index:
  assumes "length a = length idx" and "length b = length idx"
  shows "sub_series (zip idx a) (zip idx b) = zip idx (map (\<lambda>(x, y). sub_cell x y) (zip a b))"
proof -
  from assms have "length a = length idx" and "length idx = length b" by simp_all
  then show ?thesis
    unfolding sub_series_def by (induction a idx b rule: list_induct3) auto
qed

lemma wf_frame_length:
  "wf_frame df \<Longrightarrow> map_of (columns df) c = Some vs \<Longrightarrow> length vs = length (index df)"
  by (auto simp: wf_frame_def list_all_iff dest: map_of_SomeD)

lemma result_nonempty:
  assumes "clean_data r v s = (Inr x, s')" and "index (s v) \<noteq> []"
  obtains rs pd where "getitem (s r) ''reservation_type'' = Inr rs"
    and "s' v = (with_counts (s v) rs)
           \<lparr>columns := AList.update ''price_difference'' pd (columns (with_counts (s v) rs))\<rparr>"
    and "index (with_counts (s v) rs) = index (s v)"
    and "\<forall>a b. wf_frame (s v) \<longrightarrow> map_of (columns (s v)) ''actual_price'' = Some a \<longrightarrow>
           map_of (columns (s v)) ''recommended_price'' = Some b \<longrightarrow>
           pd = map (\<lambda>(x, y). sub_cell x y)
                  (zip (map (fill_cell (Num 0)) a) (map (fill_cell (Num 0)) b))"
    and "map_of (columns (s v)) ''actual_price'' \<noteq> None"
    and "map_of (columns (s v)) ''recommended_price'' \<noteq> None"
proof -
  from assms(1) obtain rs a' b' pd where
    rs: "getitem (s r) ''reservation_type'' = Inr rs" and
    a': "map_of (columns (with_counts (s v) rs)) ''actual_price'' = Some a'" and
    b': "map_of (columns (with_counts (s v) rs)) ''recommended_price'' = Some b'" and
    set: "setitem_series (with_counts (s v) rs) ''price_difference''
        (sub_series (zip (index (with_counts (s v) rs)) a') (zip (index (with_counts (s v) rs)) b'))
       = Inr ((with_counts (s v) rs)
               \<lparr>columns := AList.update ''price_difference'' pd (columns (with_counts (s v) rs))\<rparr>)" and
    s': "s' = s(v := (with_counts (s v) rs)
               \<lparr>columns := AList.update ''price_difference'' pd (columns (with_counts (s v) rs))\<rparr>)"
    by (rule clean_data_success)
  define W where "W = with_counts (s v) rs"
  have idx: "index W = index (s v)"
    using assms(2) by (simp add: W_def index_with_counts)
  have old: "map_of (columns W) c = map_option (map (fill_cell (Num 0))) (map_of (columns (s v)) c)"
    if "c \<notin> {''total_reservations'', ''res_type_1'', ''res_type_2'', ''res_type_3''}" for c
    using that assms(2) unfolding W_def by (simp add: with_counts_old)
  have pd: "pd = map (\<lambda>(x, y). sub_cell x y)
                  (zip (map (fill_cell (Num 0)) a) (map (fill_cell (Num 0)) b))"
    if wf: "wf_frame (s v)" and a: "map_of (columns (s v)) ''actual_price'' = Some a"
      and b: "map_of (columns (s v)) ''recommended_price'' = Some b" for a b
  proof -
    from a a' old [of "''actual_price''"] have a'': "a' = map (fill_cell (Num 0)) a"
      by (simp add: W_def)
    from b b' old [of "''recommended_price''"] have b'': "b' = map (fill_cell (Num 0)) b"
      by (simp add: W_def)
    have la: "length a' = length (index W)" and lb: "length b' = length (index W)"
      using wf_frame_length [OF wf a] wf_frame_length [OF wf b] by (simp_all add: a'' b'' idx)
    have i: "index W \<noteq> []" using assms(2) idx by simp
    have "setitem_series W ''price_difference'' (sub_series (zip (index W) a') (zip (index W) b'))
        = Inr (W\<lparr>columns := AList.update ''price_difference''
                 (map (\<lambda>(x, y). sub_cell x y) (zip a' b')) (columns W)\<rparr>)"
      using i la lb by (simp add: sub_series_same_index setitem_series_def)
    with set have "W\<lparr>columns := AList.update ''price_difference'' pd (columns W)\<rparr>
        = W\<lparr>columns := AList.update ''price_difference''
                 (map (\<lambda>(x, y). sub_cell x y) (zip a' b')) (columns W)\<rparr>"
      by (simp add: W_def)
    from arg_cong [OF this, of columns]
    have "AList.update ''price_difference'' pd (columns W)
        = AList.update ''price_difference'' (map (\<lambda>(x, y). sub_cell x y) (zip a' b')) (columns W)"
      by simp
    then have "pd = map (\<lambda>(x, y). sub_cell x y) (zip a' b')" by (rule update_eqD)
    then show ?thesis by (simp add: a'' b'')
  qed
  have na: "map_of (columns (s v)) ''actual_price'' \<noteq> None"
    using a' old [of "''actual_price''"] by (cases "map_of (columns (s v)) ''actual_price''") (simp_all add: W_def)
  have nb: "map_of (columns (s v)) ''recommended_price'' \<noteq> None"
    using b' old [of "''recommended_price''"] by (cases "map_of (columns (s v)) ''recommended_price''") (simp_all add: W_def)
  from s' have "s' v = W\<lparr>columns := AList.update ''price_difference'' pd (columns W)\<rparr>"
    by (simp add: W_def)
  with rs idx pd na nb that show thesis unfolding W_def by blast
qed

lemma fill_cell_zero: "fill_cell (Num 0) c = Num (zero_filled c)"
  by (cases c) (simp_all add: fill_cell_def zero_filled_def)

lemma cell_at_alt:
  "cell_at df c i =
     (case map_of (columns df) c of
        None \<Rightarrow> None
      | Some vs \<Rightarrow> if i < length (index df) \<and> i < length vs then Some (vs ! i) else None)"
  by (simp add: cell_at_def getitem_def split: option.splits)

lemma result_old_cell:
  assumes "clean_data r v s = (Inr x, s')" and "cell_at (s v) c i = Some p"
    and "c \<notin> {''total_reservations'', ''res_type_1'', ''res_type_2'', ''res_type_3'',
               ''price_difference''}"
  shows "cell_at (s' v) c i = Some (Num (zero_filled p))"
proof -
  from assms(2) have ne: "index (s v) \<noteq> []"
    by (auto simp: cell_at_alt split: option.splits if_splits)
  from assms(1) ne obtain rs pd where
    out: "s' v = (with_counts (s v) rs)
           \<lparr>columns := AList.update ''price_difference'' pd (columns (with_counts (s v) rs))\<rparr>"
    and idx: "index (with_counts (s v) rs) = index (s v)"
    by (rule result_nonempty)
  from assms(3) ne have "map_of (columns (s' v)) c
      = map_option (map (fill_cell (Num 0))) (map_of (columns (s v)) c)"
    by (simp add: out update_conv' with_counts_old)
  with assms(2) show ?thesis
    by (auto simp: cell_at_alt out idx fill_cell_zero split: option.splits if_splits)
qed

lemma result_price_difference:
  assumes "clean_data r v s = (Inr x, s')" and "wf_frame (s v)" and "i < length (index (s v))"
  shows "\<exists>p q. cell_at (s v) ''actual_price'' i = Some p \<and>
           cell_at (s v) ''recommended_price'' i = Some q \<and>
           cell_at (s' v) ''price_difference'' i = Some (Num (zero_filled p - zero_filled q))"
proof -
  from assms(3) have ne: "index (s v) \<noteq> []" by auto
  from assms(1) ne obtain rs pd where
    out: "s' v = (with_counts (s v) rs)
           \<lparr>columns := AList.update ''price_difference'' pd (columns (with_counts (s v) rs))\<rparr>"
    and idx: "index (with_counts (s v) rs) = index (s v)"
    and pd: "\<forall>a b. wf_frame (s v) \<longrightarrow> map_of (columns (s v)) ''actual_price'' = Some a \<longrightarrow>
           map_of (columns (s v)) ''recommended_price'' = Some b \<longrightarrow>
           pd = map (\<lambda>(x, y). sub_cell x y)
                  (zip (map (fill_cell (Num 0)) a) (map (fill_cell (Num 0)) b))"
    and na: "map_of (columns (s v)) ''actual_price'' \<noteq> None"
    and nb: "map_of (columns (s v)) ''recommended_price'' \<noteq> None"
    by (rule result_nonempty)
  from na nb obtain a b where a: "map_of (columns (s v)) ''actual_price'' = Some a"
    and b: "map_of (columns (s v)) ''recommended_price'' = Some b" by auto
  have la: "length a = length (index (s v))" and lb: "length b = length (index (s v))"
    using wf_frame_length [OF assms(2) a] wf_frame_length [OF assms(2) b] by simp_all
  have "cell_at (s v) ''actual_price'' i = Some (a ! i)"
    "cell_at (s v) ''recommended_price'' i = Some (b ! i)"
    using assms(3) la lb by (simp_all add: cell_at_alt a b)
  moreover have "cell_at (s' v) ''price_difference'' i
      = Some (Num (zero_filled (a ! i) - zero_filled (b ! i)))"
    using assms(3) la lb
    by (simp add: cell_at_alt out idx update_conv' pd [rule_format, OF assms(2) a b] fill_cell_zero)
  ultimately show ?thesis by blast
qed







lemma n_reserved_filter:
  "l \<in> S \<Longrightarrow> n_reserved (filter (\<lambda>lc. fst lc \<in> S) rs) l = n_reserved rs l"
  unfolding n_reserved_def by (induction rs) auto

lemma n_of_type_filter:
  "l \<in> S \<Longrightarrow> n_of_type (filter (\<lambda>lc. fst lc \<in> S) rs) j l = n_of_type rs j l"
  unfolding n_of_type_def by (induction rs) auto

lemma with_counts_orphans:
  assumes "index V \<noteq> []"
    and "filter (\<lambda>lc. fst lc \<in> set (index V)) rs' = filter (\<lambda>lc. fst lc \<in> set (index V)) rs"
  shows "with_counts V rs' = with_counts V rs"
proof -
  have r: "n_reserved rs' l = n_reserved rs l" if "l \<in> set (index V)" for l
    using n_reserved_filter [OF that, of rs'] n_reserved_filter [OF that, of rs] assms(2)
    by simp
  have t: "n_of_type rs' j l = n_of_type rs j l" if "l \<in> set (index V)" for l j
    using n_of_type_filter [OF that, of rs' j] n_of_type_filter [OF that, of rs j] assms(2)
    by simp
  show ?thesis
    using assms(1) by (simp add: with_counts_def Let_def r t cong: map_cong)
qed

lemma finish_same:
  assumes "finish v s W = (Inr x, s')" and "finish v t W = (Inr y, t')"
  shows "t' v = s' v"
  using assms by (auto simp: finish_def split: sum.splits)

lemma example_returns:
  "clean_data 0 1 (store_of example_reservations_all example_vehicles)
     = (Inr 1, snd (clean_data 0 1 (store_of example_reservations_all example_vehicles)))"
proof -
  have "fst (clean_data 0 1 (store_of example_reservations_all example_vehicles)) = Inr 1"
    by code_simp
  then show ?thesis by (simp add: prod_eq_iff)
qed

lemma example_missing_returns:
  "clean_data 0 1 (store_of example_reservations_all example_vehicles_missing)
     = (Inr 1, snd (clean_data 0 1 (store_of example_reservations_all example_vehicles_missing)))"
proof -
  have "fst (clean_data 0 1 (store_of example_reservations_all example_vehicles_missing)) = Inr 1"
    by code_simp
  then show ?thesis by (simp add: prod_eq_iff)
qed

lemma example_other_returns:
  "clean_data 0 1 (store_of example_reservations_other example_vehicles)
     = (Inr 1, snd (clean_data 0 1 (store_of example_reservations_other example_vehicles)))"
proof -
  have "fst (clean_data 0 1 (store_of example_reservations_other example_vehicles)) = Inr 1"
    by code_simp
  then show ?thesis by (simp add: prod_eq_iff)
qed

section \<open>The example of the specification\<close>



section \<open>Rows of the output\<close>

text \<open>
  C2, as stated: for every vehicle table and every reservation table the output has exactly
  the rows of the vehicle table. For a vehicle table without rows it does not: the first
  column assignment (line 25) gives a frame without rows the index of the assigned series,
  so the output has one row per vehicle of the reservation table, here vehicles 1 and 3.
\<close>

theorem empty_vehicle_table_gets_rows:
  "fst (clean_data 0 1 (store_of example_reservations_all no_vehicles)) = Inr 1 \<and>
   length (index (store_of example_reservations_all no_vehicles 1)) = 0 \<and>
   index (snd (clean_data 0 1 (store_of example_reservations_all no_vehicles)) 1) = [1, 3]"
  by code_simp

text \<open>
  C2, amended: for a vehicle table with at least one row, whenever \<open>clean_data\<close>
  returns, it returns the vehicle table itself, and its rows are the rows of the vehicle
  table given: the same vehicle identifiers in the same order, each as often as before,
  whether or not a vehicle has reservations.
\<close>

theorem rows_of_vehicle_table:
  assumes "clean_data r v s = (Inr x, s')" and "index (s v) \<noteq> []"
  shows "x = v \<and> index (s' v) = index (s v)"
  using assms by (elim clean_data_success) (simp add: index_with_counts)

theorem rows_of_vehicle_table_witness:
  "index (store_of example_reservations_all example_vehicles 1) \<noteq> [] \<and>
   index (snd (clean_data 0 1 (store_of example_reservations_all example_vehicles)) 1)
     = index (store_of example_reservations_all example_vehicles 1)"
proof -
  have h: "index (store_of example_reservations_all example_vehicles 1) \<noteq> []"
    by code_simp
  from rows_of_vehicle_table [OF example_returns h] h show ?thesis by simp
qed

section \<open>Counts of reservations\<close>





section \<open>When the call returns\<close>

text \<open>
  C9: \<open>clean_data\<close> returns only if each of the three types 1, 2 and 3 occurs in the
  \<open>reservation_type\<close> column; and if one of them occurs nowhere, the lookup
  \<open>res_by_vehicle[res_types]\<close> raises \<open>KeyError\<close> with the name of its column
  among the missing ones, instead of giving a column of zeros. Only the vehicle table
  has changed by then.
\<close>

theorem needs_every_type:
  "(clean_data r v s = (Inr x, s') \<longrightarrow>
      (\<exists>rs. getitem (s r) ''reservation_type'' = Inr rs \<and>
            Num 1 \<in> snd ` set rs \<and> Num 2 \<in> snd ` set rs \<and> Num 3 \<in> snd ` set rs)) \<and>
   (getitem (s r) ''reservation_type'' = Inr rs \<and> j \<in> {1, 2, 3} \<and> Num j \<notin> snd ` set rs \<longrightarrow>
      (\<exists>ns v1. clean_data r v s = (Inl (KeyError ns), s(v := v1)) \<and>
               level_name ''res_type'' False j \<in> set ns))"
proof (intro conjI impI)
  assume "clean_data r v s = (Inr x, s')"
  then obtain rs where "getitem (s r) ''reservation_type'' = Inr rs" and "every_type rs"
    by (rule clean_data_success)
  then show "\<exists>rs. getitem (s r) ''reservation_type'' = Inr rs \<and>
            Num 1 \<in> snd ` set rs \<and> Num 2 \<in> snd ` set rs \<and> Num 3 \<in> snd ` set rs"
    unfolding every_type_def in_present by blast
next
  assume a: "getitem (s r) ''reservation_type'' = Inr rs \<and> j \<in> {1, 2, 3} \<and> Num j \<notin> snd ` set rs"
  then have n: "\<not> every_type rs" unfolding every_type_def in_present by auto
  from a have rs: "getitem (s r) ''reservation_type'' = Inr rs" by simp
  have names: "level_name ''res_type'' False 1 = ''res_type_1''"
    "level_name ''res_type'' False 2 = ''res_type_2''"
    "level_name ''res_type'' False 3 = ''res_type_3''"
    by (simp_all add: level_name_res_type)
  from a have "level_name ''res_type'' False j
      \<in> set (filter (\<lambda>c. map_of (columns (by_vehicle rs)) c = None) res_types)"
    by (auto simp: names res_types_def by_vehicle_res_type in_present)
  with clean_data_missing_type [of s r rs v] rs n
  show "\<exists>ns v1. clean_data r v s = (Inl (KeyError ns), s(v := v1)) \<and>
               level_name ''res_type'' False j \<in> set ns"
    by blast
qed

theorem needs_every_type_witness:
  "(\<exists>rs. getitem (store_of example_reservations_all example_vehicles 0) ''reservation_type''
           = Inr rs \<and>
         Num 1 \<in> snd ` set rs \<and> Num 2 \<in> snd ` set rs \<and> Num 3 \<in> snd ` set rs) \<and>
   (\<exists>ns v1. clean_data 0 1 (store_of example_reservations example_vehicles)
           = (Inl (KeyError ns), (store_of example_reservations example_vehicles)(1 := v1)) \<and>
         level_name ''res_type'' False 3 \<in> set ns)"
proof
  from needs_every_type
    [of 0 1 "store_of example_reservations_all example_vehicles" 1
        "snd (clean_data 0 1 (store_of example_reservations_all example_vehicles))"]
  have "clean_data 0 1 (store_of example_reservations_all example_vehicles)
      = (Inr 1, snd (clean_data 0 1 (store_of example_reservations_all example_vehicles))) \<longrightarrow>
    (\<exists>rs. getitem (store_of example_reservations_all example_vehicles 0) ''reservation_type''
           = Inr rs \<and>
         Num 1 \<in> snd ` set rs \<and> Num 2 \<in> snd ` set rs \<and> Num 3 \<in> snd ` set rs)"
    by (rule conjunct1)
  then show "\<exists>rs. getitem (store_of example_reservations_all example_vehicles 0) ''reservation_type''
           = Inr rs \<and>
         Num 1 \<in> snd ` set rs \<and> Num 2 \<in> snd ` set rs \<and> Num 3 \<in> snd ` set rs"
    using example_returns by (rule mp)
next
  let ?rs = "[(1, Num 1), (1, Num 1), (1, Num 2)] :: series"
  have g: "getitem (store_of example_reservations example_vehicles 0) ''reservation_type''
     = Inr ?rs"
    by code_simp
  have h: "getitem (store_of example_reservations example_vehicles 0) ''reservation_type''
     = Inr ?rs \<and> (3::int) \<in> {1, 2, 3} \<and> Num 3 \<notin> snd ` set ?rs"
    using g by simp
  from needs_every_type
    [of 0 1 "store_of example_reservations example_vehicles" 1
        "store_of example_reservations example_vehicles" ?rs 3]
  have "getitem (store_of example_reservations example_vehicles 0) ''reservation_type''
     = Inr ?rs \<and> (3::int) \<in> {1, 2, 3} \<and> Num 3 \<notin> snd ` set ?rs \<longrightarrow>
    (\<exists>ns v1. clean_data 0 1 (store_of example_reservations example_vehicles)
           = (Inl (KeyError ns), (store_of example_reservations example_vehicles)(1 := v1)) \<and>
         level_name ''res_type'' False 3 \<in> set ns)"
    by (rule conjunct2)
  then show "\<exists>ns v1. clean_data 0 1 (store_of example_reservations example_vehicles)
           = (Inl (KeyError ns), (store_of example_reservations example_vehicles)(1 := v1)) \<and>
         level_name ''res_type'' False 3 \<in> set ns"
    using h by (rule mp)
qed

section \<open>What the call changes\<close>




section \<open>The price difference and the filled cells\<close>




text \<open>
  C10: \<open>fillna\<close> (line 30) fills every column of the vehicle table, not only the counts:
  a cell of any column that \<open>clean_data\<close> does not assign itself comes back as the
  number it held, or as 0 if it was missing; and the filling precedes line 33, so a vehicle
  with a missing actual price gets 0 minus its recommended price as price difference.
\<close>

theorem fillna_fills_every_column:
  assumes "clean_data r v s = (Inr x, s')" and "wf_frame (s v)"
  shows "(cell_at (s v) c i = Some p \<and>
          c \<notin> {''total_reservations'', ''res_type_1'', ''res_type_2'', ''res_type_3'',
                ''price_difference''} \<longrightarrow>
            cell_at (s' v) c i = Some (Num (zero_filled p))) \<and>
         zero_filled NaN = 0 \<and>
         (cell_at (s v) ''actual_price'' i = Some NaN \<and>
          cell_at (s v) ''recommended_price'' i = Some q \<longrightarrow>
            cell_at (s' v) ''price_difference'' i = Some (Num (0 - zero_filled q)))"
proof (intro conjI impI)
  assume h: "cell_at (s v) c i = Some p \<and>
          c \<notin> {''total_reservations'', ''res_type_1'', ''res_type_2'', ''res_type_3'',
                ''price_difference''}"
  from h have 1: "cell_at (s v) c i = Some p" by (rule conjunct1)
  from h have 2: "c \<notin> {''total_reservations'', ''res_type_1'', ''res_type_2'', ''res_type_3'',
                ''price_difference''}" by (rule conjunct2)
  from assms(1) 1 2 show "cell_at (s' v) c i = Some (Num (zero_filled p))"
    by (rule result_old_cell)
next
  show "zero_filled NaN = 0" by (simp add: zero_filled_def)
next
  assume h: "cell_at (s v) ''actual_price'' i = Some NaN \<and>
          cell_at (s v) ''recommended_price'' i = Some q"
  then have "i < length (index (s v))"
    by (auto simp: cell_at_alt split: option.splits if_splits)
  from result_price_difference [OF assms this] h
  show "cell_at (s' v) ''price_difference'' i = Some (Num (0 - zero_filled q))"
    by (auto simp: zero_filled_def)
qed

theorem fillna_fills_every_column_witness:
  "wf_frame (store_of example_reservations_all example_vehicles_missing 1) \<and>
   cell_at (store_of example_reservations_all example_vehicles_missing 1) ''num_images'' 1
     = Some NaN \<and>
   cell_at (snd (clean_data 0 1 (store_of example_reservations_all example_vehicles_missing)) 1)
     ''num_images'' 1 = Some (Num 0) \<and>
   cell_at (store_of example_reservations_all example_vehicles_missing 1) ''actual_price'' 0
     = Some NaN \<and>
   cell_at (store_of example_reservations_all example_vehicles_missing 1) ''recommended_price'' 0
     = Some (Num 80) \<and>
   cell_at (snd (clean_data 0 1 (store_of example_reservations_all example_vehicles_missing)) 1)
     ''price_difference'' 0 = Some (Num (- 80))"
proof -
  let ?S = "store_of example_reservations_all example_vehicles_missing"
  have wf: "wf_frame (?S 1)" by code_simp
  have n: "cell_at (?S 1) ''num_images'' 1 = Some NaN" by code_simp
  have c: "''num_images'' \<notin> {''total_reservations'', ''res_type_1'', ''res_type_2'',
      ''res_type_3'', ''price_difference''}" by simp
  have a: "cell_at (?S 1) ''actual_price'' 0 = Some NaN" by code_simp
  have b: "cell_at (?S 1) ''recommended_price'' 0 = Some (Num 80)" by code_simp
  note t = fillna_fills_every_column [OF example_missing_returns wf]
  from t [of "''num_images''" 1 NaN] n c
  have 1: "cell_at (snd (clean_data 0 1 ?S) 1) ''num_images'' 1 = Some (Num 0)"
    by (simp add: zero_filled_def)
  from t [of _ 0 _ "Num 80"] a b
  have 2: "cell_at (snd (clean_data 0 1 ?S) 1) ''price_difference'' 0 = Some (Num (- 80))"
    by (simp add: zero_filled_def)
  from wf n 1 a b 2 show ?thesis by (intro conjI)
qed

section \<open>Missing columns\<close>




section \<open>Reservations of vehicles that are not in the vehicle table\<close>

text \<open>
  C7, as stated: a reservation whose vehicle is not in the vehicle table contributes to no
  output row. For a vehicle table without rows it does: every reservation is then of a
  vehicle that is not in the table, and the output has a row for each such vehicle, with
  its reservations counted.
\<close>

theorem orphans_get_rows_in_empty_vehicle_table:
  "set (index (store_of example_reservations_all no_vehicles 1)) = {} \<and>
   getitem (snd (clean_data 0 1 (store_of example_reservations_all no_vehicles)) 1)
     ''total_reservations'' = Inr [(1, Num 3), (3, Num 1)]"
  by code_simp

text \<open>
  C7, amended: for a vehicle table with at least one row, reservations of vehicles that are
  not in the vehicle table change nothing in the output: two calls that return, on the same
  vehicle table and on reservation tables with the same records of the vehicles of that
  table, leave the same vehicle table, and its rows are the rows of the vehicle table given.
\<close>

theorem orphans_do_not_count:
  assumes "clean_data r v s = (Inr x, s')" and "clean_data r' v t = (Inr y, t')"
    and "t v = s v" and "index (s v) \<noteq> []"
    and "getitem (s r) ''reservation_type'' = Inr rs"
    and "getitem (t r') ''reservation_type'' = Inr rs'"
    and "filter (\<lambda>lc. fst lc \<in> set (index (s v))) rs'
           = filter (\<lambda>lc. fst lc \<in> set (index (s v))) rs"
  shows "t' v = s' v \<and> index (s' v) = index (s v)"
proof -
  from clean_data_InrD [OF assms(1)] assms(5)
  have 1: "finish v s (with_counts (s v) rs) = (Inr x, s')" by auto
  from clean_data_InrD [OF assms(2)] assms(6)
  have "finish v t (with_counts (t v) rs') = (Inr y, t')" by auto
  then have 2: "finish v t (with_counts (s v) rs) = (Inr y, t')"
    using with_counts_orphans [OF assms(4,7)] assms(3) by simp
  from result_columns(1) [OF assms(1,5)] assms(4) have "index (s' v) = index (s v)" by simp
  with finish_same [OF 1 2] show ?thesis by simp
qed

theorem orphans_do_not_count_witness:
  "index (store_of example_reservations_all example_vehicles 1) \<noteq> [] \<and>
   getitem (store_of example_reservations_all example_vehicles 0) ''reservation_type''
     = Inr [(1, Num 1), (1, Num 1), (1, Num 2), (3, Num 3)] \<and>
   getitem (store_of example_reservations_other example_vehicles 0) ''reservation_type''
     = Inr [(7, Num 3), (1, Num 1), (1, Num 1), (1, Num 2), (7, Num 2), (7, Num 1)] \<and>
   snd (clean_data 0 1 (store_of example_reservations_other example_vehicles)) 1
     = snd (clean_data 0 1 (store_of example_reservations_all example_vehicles)) 1 \<and>
   index (snd (clean_data 0 1 (store_of example_reservations_all example_vehicles)) 1)
     = index (store_of example_reservations_all example_vehicles 1)"
proof -
  let ?S = "store_of example_reservations_all example_vehicles"
  let ?T = "store_of example_reservations_other example_vehicles"
  let ?rs = "[(1, Num 1), (1, Num 1), (1, Num 2), (3, Num 3)] :: series"
  let ?rs' = "[(7, Num 3), (1, Num 1), (1, Num 1), (1, Num 2), (7, Num 2), (7, Num 1)] :: series"
  have v: "?T 1 = ?S 1" by (simp add: store_of_def)
  have i: "index (?S 1) \<noteq> []" by code_simp
  have g: "getitem (?S 0) ''reservation_type'' = Inr ?rs" by code_simp
  have g': "getitem (?T 0) ''reservation_type'' = Inr ?rs'" by code_simp
  have f: "filter (\<lambda>lc. fst lc \<in> set (index (?S 1))) ?rs'
      = filter (\<lambda>lc. fst lc \<in> set (index (?S 1))) ?rs"
    by (simp add: store_of_def example_vehicles_def)
  from orphans_do_not_count [OF example_returns example_other_returns v i g g' f] i g g'
  show ?thesis by (intro conjI) simp_all
qed

end
